theory Spec2Isabelle
  imports Complex_Main "HOL-Library.Char_ord" "HOL-Library.List_Lexorder" "HOL-Library.Multiset"
begin

section \<open>Cell values and the native ordering\<close>

text \<open>
  A row is declared as \<^verbatim>\<open>{ id: string, [key: string]: any }\<close>. The values the editors
  and the defaults produce are primitives, so a cell value is one of the primitive
  JavaScript values. A number is modelled by the value it denotes: a real (the two zeros
  are not told apart, which no comparison and no truthiness test does either), the two
  infinities, or NaN. A string is a list of code units; \<open>char\<close> covers the units below 256,
  and \<open>s < t\<close> on strings is the lexicographic order on units that the relational
  operators use.
\<close>

datatype jsnum = NaN | NegInf | Fin real | PosInf

datatype jsval = Undefined | Null | Bool bool | Num jsnum | Str string

text \<open>Truthiness: the falsy primitives are undefined, null, false, 0, NaN and the empty string.\<close>

fun truthy :: "jsval \<Rightarrow> bool" where
  "truthy Undefined = False"
| "truthy Null = False"
| "truthy (Bool b) = b"
| "truthy (Num NaN) = False"
| "truthy (Num (Fin x)) = (x \<noteq> 0)"
| "truthy (Num _) = True"
| "truthy (Str s) = (s \<noteq> [])"

text \<open>\<^verbatim>\<open>a || b\<close> on values.\<close>

definition js_or :: "jsval \<Rightarrow> jsval \<Rightarrow> jsval" where
  "js_or a b = (if truthy a then a else b)"

text \<open>\<^verbatim>\<open>a === b\<close>: same type and same value, and NaN equals nothing.\<close>

definition strict_eq :: "jsval \<Rightarrow> jsval \<Rightarrow> bool" where
  "strict_eq a b = (a = b \<and> a \<noteq> Num NaN)"

text \<open>
  The conversion of a string to a number (the language's StringToNumber, which parses
  a numeric literal and rounds it to the nearest double) is not code of this program;
  every definition that needs it takes it as the parameter \<open>s2n\<close>.
\<close>

fun ToNumber :: "(string \<Rightarrow> jsnum) \<Rightarrow> jsval \<Rightarrow> jsnum" where
  "ToNumber s2n Undefined = NaN"
| "ToNumber s2n Null = Fin 0"
| "ToNumber s2n (Bool b) = Fin (if b then 1 else 0)"
| "ToNumber s2n (Num n) = n"
| "ToNumber s2n (Str s) = s2n s"

fun num_lt :: "jsnum \<Rightarrow> jsnum \<Rightarrow> bool" where
  "num_lt NaN _ = False"
| "num_lt _ NaN = False"
| "num_lt PosInf _ = False"
| "num_lt _ NegInf = False"
| "num_lt NegInf _ = True"
| "num_lt _ PosInf = True"
| "num_lt (Fin x) (Fin y) = (x < y)"

text \<open>
  \<^verbatim>\<open>a < b\<close>: two strings are compared unit by unit; any other pair is converted to
  numbers and compared numerically, and a comparison with NaN is false.
\<close>

fun js_lt :: "(string \<Rightarrow> jsnum) \<Rightarrow> jsval \<Rightarrow> jsval \<Rightarrow> bool" where
  "js_lt s2n (Str s) (Str t) = (s < t)"
| "js_lt s2n a b = num_lt (ToNumber s2n a) (ToNumber s2n b)"

text \<open>\<^verbatim>\<open>a > b\<close> is \<^verbatim>\<open>b < a\<close>.\<close>

definition js_gt :: "(string \<Rightarrow> jsnum) \<Rightarrow> jsval \<Rightarrow> jsval \<Rightarrow> bool" where
  "js_gt s2n a b = js_lt s2n b a"

section \<open>Rows\<close>

text \<open>
  A row object is a map from keys to values; its identifier is the value under the key
  \<open>id\<close>, in the same object as the cells. Reading a key the object does not have gives
  undefined. (Properties inherited from the object prototype are not modelled.)
\<close>

type_synonym row = "string \<rightharpoonup> jsval"

definition get :: "row \<Rightarrow> string \<Rightarrow> jsval" where
  "get r k = (case r k of None \<Rightarrow> Undefined | Some v \<Rightarrow> v)"

section \<open>The array sort\<close>

text \<open>
  \<^verbatim>\<open>Array.prototype.sort\<close> is the engine's, not the program's. The language fixes its
  result only for a comparator that is a consistent comparison function for the elements
  \<open>S\<close> of the array: every element compares 0 with itself, comparing 0 is symmetric and
  transitive, and so are comparing below 0 and comparing above 0.
\<close>

definition consistent_on :: "('a \<Rightarrow> 'a \<Rightarrow> int) \<Rightarrow> 'a set \<Rightarrow> bool" where
  "consistent_on cmp S \<longleftrightarrow>
     (\<forall>a\<in>S. cmp a a = 0) \<and>
     (\<forall>a\<in>S. \<forall>b\<in>S. cmp a b = 0 \<longrightarrow> cmp b a = 0) \<and>
     (\<forall>a\<in>S. \<forall>b\<in>S. \<forall>c\<in>S. cmp a b = 0 \<and> cmp b c = 0 \<longrightarrow> cmp a c = 0) \<and>
     (\<forall>a\<in>S. \<forall>b\<in>S. \<forall>c\<in>S. cmp a b < 0 \<and> cmp b c < 0 \<longrightarrow> cmp a c < 0) \<and>
     (\<forall>a\<in>S. \<forall>b\<in>S. \<forall>c\<in>S. cmp a b > 0 \<and> cmp b c > 0 \<longrightarrow> cmp a c > 0)"

text \<open>
  For such a comparator the result \<open>ys\<close> is the stable sort of the array \<open>xs\<close>: the same
  elements, no element before one it compares greater than, and elements that compare 0
  in the order they had.
\<close>

definition stably_sorted :: "('a \<Rightarrow> 'a \<Rightarrow> int) \<Rightarrow> 'a list \<Rightarrow> 'a list \<Rightarrow> bool" where
  "stably_sorted cmp xs ys \<longleftrightarrow>
     mset ys = mset xs \<and>
     sorted_wrt (\<lambda>a b. cmp a b \<le> 0) ys \<and>
     (\<forall>x\<in>set xs. filter (\<lambda>y. cmp x y = 0) ys = filter (\<lambda>y. cmp x y = 0) xs)"

text \<open>
  For any other comparator the order is left to the engine. The sort is therefore a
  parameter \<open>srt\<close> of the sorted rows, and what is known of it is that it meets this
  contract.
\<close>

definition conforming :: "(('a \<Rightarrow> 'a \<Rightarrow> int) \<Rightarrow> 'a list \<Rightarrow> 'a list) \<Rightarrow> bool" where
  "conforming srt \<longleftrightarrow>
     (\<forall>cmp xs. consistent_on cmp (set xs) \<longrightarrow> stably_sorted cmp xs (srt cmp xs))"

text \<open>
  Two sorts that meet the contract: the insertion sort, which inserts each element, from
  the last to the first, into the sorted rest in front of the first element it does not
  compare greater than; and the top-down merge sort.
\<close>

fun insert_by :: "('a \<Rightarrow> 'a \<Rightarrow> int) \<Rightarrow> 'a \<Rightarrow> 'a list \<Rightarrow> 'a list" where
  "insert_by cmp x [] = [x]"
| "insert_by cmp x (y # ys) = (if cmp x y \<le> 0 then x # y # ys else y # insert_by cmp x ys)"

definition array_sort :: "('a \<Rightarrow> 'a \<Rightarrow> int) \<Rightarrow> 'a list \<Rightarrow> 'a list" where
  "array_sort cmp xs = foldr (insert_by cmp) xs []"




section \<open>The grid: sort state and sorted rows\<close>

datatype direction = Asc | Desc

text \<open>
  The state of the grid component. The selection is a \<^verbatim>\<open>Set\<close>, which keeps its elements
  in insertion order: a list without duplicates.
\<close>

record grid =
  selectedRows :: "jsval list"
  editingCell :: "(jsval \<times> string) option"
  sortColumn :: "string option"
  sortDirection :: direction

definition initial_grid :: grid where
  "initial_grid = \<lparr>selectedRows = [], editingCell = None, sortColumn = None, sortDirection = Asc\<rparr>"

definition handleSort :: "string \<Rightarrow> grid \<Rightarrow> grid" where
  "handleSort columnId g =
     (if sortColumn g = Some columnId
      then g\<lparr>sortDirection := (if sortDirection g = Asc then Desc else Asc)\<rparr>
      else g\<lparr>sortColumn := Some columnId, sortDirection := Asc\<rparr>)"

text \<open>
  The comparator of \<open>sortedRows\<close>. \<^verbatim>\<open>if (!sortColumn) return 0\<close> holds for null and for
  the empty string.
\<close>

definition compare_rows ::
  "(string \<Rightarrow> jsnum) \<Rightarrow> string option \<Rightarrow> direction \<Rightarrow> row \<Rightarrow> row \<Rightarrow> int" where
  "compare_rows s2n sc sd a b =
     (case sc of
        None \<Rightarrow> 0
      | Some c \<Rightarrow>
          if c = [] then 0
          else
            let aValue = get a c; bValue = get b c in
            if js_lt s2n aValue bValue then (if sd = Asc then - 1 else 1)
            else if js_gt s2n aValue bValue then (if sd = Asc then 1 else - 1)
            else 0)"

text \<open>\<^verbatim>\<open>[...rows].sort(...)\<close> with that comparator, on the engine's sort \<open>srt\<close>.\<close>

definition sortedRows ::
  "((row \<Rightarrow> row \<Rightarrow> int) \<Rightarrow> row list \<Rightarrow> row list) \<Rightarrow> (string \<Rightarrow> jsnum) \<Rightarrow>
     row list \<Rightarrow> string option \<Rightarrow> direction \<Rightarrow> row list" where
  "sortedRows srt s2n rs sc sd = srt (compare_rows s2n sc sd) rs"

section \<open>Tables, columns and the application state\<close>

datatype column_type = TText | TNumber | TDate | TBoolean | TSelect

text \<open>The fields \<open>id\<close>, \<open>name\<close> and \<open>type\<close> of a column carry the prefix \<open>col_\<close>.\<close>

record column =
  col_id :: string
  col_name :: string
  col_type :: column_type
  col_options :: "string list option"
  col_required :: "bool option"
  col_width :: "nat option"

record table =
  tbl_id :: string
  tbl_name :: string
  columns :: "column list"
  rows :: "row list"
  createdAt :: string
  updatedAt :: string
  userId :: string

record toast =
  title :: string
  description :: string
  destructive :: bool

text \<open>
  The calls to the remote store, with their arguments. The serialised columns and the
  serialised row data are kept as the values that are serialised.
\<close>

datatype remote_call =
    TablesCreate string string "column list" string
  | TablesUpdate string "column list" string
  | RowsCreate string string row string
  | RowsUpdate jsval row
  | RowsDelete jsval

text \<open>
  The state of the application component: the signed-in user (its identifier, or none),
  the tables, the active table, whether the creation dialog is open; and what the
  handlers do to the outside: the notifications shown, the lines written to the error
  console, and the remote calls issued, each in order.
\<close>

record app =
  user :: "string option"
  tables :: "table list"
  activeTable :: "table option"
  createTableOpen :: bool
  toasts :: "toast list"
  console :: "string list"
  calls :: "remote_call list"

definition issue :: "remote_call \<Rightarrow> app \<Rightarrow> app" where
  "issue c s = s\<lparr>calls := calls s @ [c]\<rparr>"

definition success_toast :: "string \<Rightarrow> app \<Rightarrow> app" where
  "success_toast d s =
     s\<lparr>toasts := toasts s @ [\<lparr>title = ''Success'', description = d, destructive = False\<rparr>]\<rparr>"

text \<open>A \<^verbatim>\<open>catch\<close> block: a line on the error console and a destructive notification.\<close>

definition failed :: "string \<Rightarrow> app \<Rightarrow> app" where
  "failed what s =
     s\<lparr>console := console s @ [''Failed to '' @ what @ '':''],
       toasts := toasts s @
         [\<lparr>title = ''Error'', description = ''Failed to '' @ what, destructive = True\<rparr>]\<rparr>"

text \<open>\<^verbatim>\<open>setTables(prev => prev.map(t => t.id === activeTable.id ? updatedTable : t))\<close>\<close>

definition replace_table :: "table \<Rightarrow> table \<Rightarrow> app \<Rightarrow> app" where
  "replace_table act updatedTable s =
     s\<lparr>tables := map (\<lambda>t. if tbl_id t = tbl_id act then updatedTable else t) (tables s)\<rparr>"

text \<open>The decimal digits of a number, as a template literal prints \<^verbatim>\<open>Date.now()\<close>.\<close>

fun string_of_nat :: "nat \<Rightarrow> string" where
  "string_of_nat n =
     (if n < 10 then [''0123456789'' ! n]
      else string_of_nat (n div 10) @ [''0123456789'' ! (n mod 10)])"

declare string_of_nat.simps [simp del]

section \<open>The handlers of the application\<close>

text \<open>
  A handler is a closure of the render that created it: it reads \<open>user\<close> and
  \<open>activeTable\<close> from the state of that render (\<open>cl\<close>) and writes to the current
  state. \<open>remote\<close> tells which remote calls resolve (\<open>True\<close>) and which reject; \<open>now\<close>
  is the reading of \<^verbatim>\<open>Date.now()\<close> and the \<open>ts\<close> are those of
  \<^verbatim>\<open>new Date().toISOString()\<close>. A handler runs to its end here: what is awaited is
  a single remote call (or one group of calls), and the state after the handler is the
  state once that call has settled.
\<close>

definition handleCreateTable ::
  "(remote_call \<Rightarrow> bool) \<Rightarrow> app \<Rightarrow> nat \<Rightarrow> string \<Rightarrow> string \<Rightarrow> string \<Rightarrow> column list \<Rightarrow> app \<Rightarrow> app" where
  "handleCreateTable remote cl now ts1 ts2 name cols s =
     (let tableId = ''table_'' @ string_of_nat now in
      case user cl of
        None \<Rightarrow> failed ''create table'' s
      | Some uid \<Rightarrow>
          let call = TablesCreate tableId name cols uid;
              s1 = issue call s
          in if remote call
             then
               let newTable = \<lparr>tbl_id = tableId, tbl_name = name, columns = cols, rows = [],
                     createdAt = ts1, updatedAt = ts2, userId = uid\<rparr>
               in success_toast (''Table '' @ [CHR 0x22] @ name @ [CHR 0x22] @ '' created successfully'')
                    (s1\<lparr>tables := newTable # tables s1, activeTable := Some newTable\<rparr>)
             else failed ''create table'' s1)"

definition handleColumnAdd ::
  "(remote_call \<Rightarrow> bool) \<Rightarrow> app \<Rightarrow> nat \<Rightarrow> string \<Rightarrow> app \<Rightarrow> app" where
  "handleColumnAdd remote cl now ts s =
     (case activeTable cl of
        None \<Rightarrow> s
      | Some act \<Rightarrow>
          let newColumn = \<lparr>col_id = ''col_'' @ string_of_nat now,
                col_name = ''Column '' @ string_of_nat (length (columns act) + 1),
                col_type = TText, col_options = None, col_required = Some False,
                col_width = Some 200\<rparr>;
              updatedColumns = columns act @ [newColumn];
              call = TablesUpdate (tbl_id act) updatedColumns ts;
              s1 = issue call s
          in if remote call
             then
               let updatedTable = act\<lparr>columns := updatedColumns\<rparr>
               in success_toast ''Column added successfully''
                    (replace_table act updatedTable (s1\<lparr>activeTable := Some updatedTable\<rparr>))
             else failed ''add column'' s1)"

definition handleColumnDelete ::
  "(remote_call \<Rightarrow> bool) \<Rightarrow> app \<Rightarrow> string \<Rightarrow> string \<Rightarrow> app \<Rightarrow> app" where
  "handleColumnDelete remote cl ts columnId s =
     (case activeTable cl of
        None \<Rightarrow> s
      | Some act \<Rightarrow>
          let updatedColumns = filter (\<lambda>col. col_id col \<noteq> columnId) (columns act);
              call = TablesUpdate (tbl_id act) updatedColumns ts;
              s1 = issue call s
          in if \<not> remote call then failed ''delete column'' s1
             else
               let updatedRows = map (\<lambda>row. row(columnId := None)) (rows act);
                   rcalls = map (\<lambda>row. RowsUpdate (get row ''id'') row) updatedRows;
                   s2 = s1\<lparr>calls := calls s1 @ rcalls\<rparr>
               in if list_all remote rcalls
                  then
                    let updatedTable = act\<lparr>columns := updatedColumns, rows := updatedRows\<rparr>
                    in success_toast ''Column deleted successfully''
                         (replace_table act updatedTable (s2\<lparr>activeTable := Some updatedTable\<rparr>))
                  else failed ''delete column'' s2)"

text \<open>The default value of a new row's cell.\<close>

definition default_value :: "column \<Rightarrow> jsval" where
  "default_value col = (if col_type col = TBoolean then Bool False else Str [])"

definition handleRowAdd ::
  "(remote_call \<Rightarrow> bool) \<Rightarrow> app \<Rightarrow> nat \<Rightarrow> app \<Rightarrow> app" where
  "handleRowAdd remote cl now s =
     (case activeTable cl of
        None \<Rightarrow> s
      | Some act \<Rightarrow>
          let rowId = ''row_'' @ string_of_nat now;
              newRowData = foldl (\<lambda>r col. r(col_id col \<mapsto> default_value col))
                             [''id'' \<mapsto> Str rowId] (columns act)
          in case user cl of
               None \<Rightarrow> failed ''add row'' s
             | Some uid \<Rightarrow>
                 let call = RowsCreate rowId (tbl_id act) newRowData uid;
                     s1 = issue call s
                 in if remote call
                    then
                      let updatedRows = rows act @ [newRowData];
                          updatedTable = act\<lparr>rows := updatedRows\<rparr>
                      in success_toast ''Row added successfully''
                           (replace_table act updatedTable (s1\<lparr>activeTable := Some updatedTable\<rparr>))
                    else failed ''add row'' s1)"

definition handleRowUpdate ::
  "(remote_call \<Rightarrow> bool) \<Rightarrow> app \<Rightarrow> jsval \<Rightarrow> string \<Rightarrow> jsval \<Rightarrow> app \<Rightarrow> app" where
  "handleRowUpdate remote cl rowId columnId v s =
     (case activeTable cl of
        None \<Rightarrow> s
      | Some act \<Rightarrow>
          let updatedRows = map (\<lambda>row. if strict_eq (get row ''id'') rowId
                                         then row(columnId \<mapsto> v) else row) (rows act)
          in case find (\<lambda>r. strict_eq (get r ''id'') rowId) updatedRows of
               None \<Rightarrow> s
             | Some updatedRow \<Rightarrow>
                 let call = RowsUpdate rowId updatedRow;
                     s1 = issue call s
                 in if remote call
                    then
                      let updatedTable = act\<lparr>rows := updatedRows\<rparr>
                      in replace_table act updatedTable (s1\<lparr>activeTable := Some updatedTable\<rparr>)
                    else failed ''update row'' s1)"

definition handleRowDelete ::
  "(remote_call \<Rightarrow> bool) \<Rightarrow> app \<Rightarrow> jsval \<Rightarrow> app \<Rightarrow> app" where
  "handleRowDelete remote cl rowId s =
     (case activeTable cl of
        None \<Rightarrow> s
      | Some act \<Rightarrow>
          let call = RowsDelete rowId;
              s1 = issue call s
          in if remote call
             then
               let updatedRows = filter (\<lambda>row. \<not> strict_eq (get row ''id'') rowId) (rows act);
                   updatedTable = act\<lparr>rows := updatedRows\<rparr>
               in success_toast ''Row deleted successfully''
                    (replace_table act updatedTable (s1\<lparr>activeTable := Some updatedTable\<rparr>))
             else failed ''delete row'' s1)"

section \<open>The table creation dialog\<close>

text \<open>
  \<^verbatim>\<open>String.prototype.trim\<close> removes white space and line terminators from both ends;
  among the units below 256 these are tab, line feed, vertical tab, form feed, carriage
  return, space and the no-break space.
\<close>

definition is_space :: "char \<Rightarrow> bool" where
  "is_space ch = (ch \<in> {CHR 0x09, CHR 0x0A, CHR 0x0B, CHR 0x0C, CHR 0x0D, CHR 0x20, CHR 0xA0})"

definition trim :: "string \<Rightarrow> string" where
  "trim s = rev (dropWhile is_space (rev (dropWhile is_space s)))"

text \<open>The state of the dialog; \<open>dlg_columns\<close> is its \<open>columns\<close>.\<close>

record dialog =
  tableName :: string
  dlg_columns :: "column list"

definition default_columns :: "column list" where
  "default_columns =
     [\<lparr>col_id = ''col_1'', col_name = ''Name'', col_type = TText, col_options = None,
        col_required = Some True, col_width = Some 200\<rparr>,
      \<lparr>col_id = ''col_2'', col_name = ''Email'', col_type = TText, col_options = None,
        col_required = Some False, col_width = Some 200\<rparr>]"

text \<open>
  \<open>handleCreate\<close> of the dialog: with a name that is not blank and at least one column
  it calls the application's \<open>handleCreateTable\<close> on the trimmed name, resets its
  fields and closes; otherwise it does nothing.
\<close>

definition handleCreate ::
  "(remote_call \<Rightarrow> bool) \<Rightarrow> nat \<Rightarrow> string \<Rightarrow> string \<Rightarrow> dialog \<times> app \<Rightarrow> dialog \<times> app" where
  "handleCreate remote now ts1 ts2 ds =
     (case ds of (d, s) \<Rightarrow>
        if trim (tableName d) \<noteq> [] \<and> 0 < length (dlg_columns d)
        then (d\<lparr>tableName := [], dlg_columns := default_columns\<rparr>,
              (handleCreateTable remote s now ts1 ts2 (trim (tableName d)) (dlg_columns d) s)
                \<lparr>createTableOpen := False\<rparr>)
        else (d, s))"

section \<open>The grid: cells, selection and deletion\<close>

text \<open>
  What a cell shows. The text of a date and of a number is produced by the locale
  functions of the language and is kept as the value that is formatted.
\<close>

datatype rendering = Placeholder | CheckBox bool | DateText jsval | NumberText jsval | PlainText jsval

definition CellDisplay :: "column \<Rightarrow> jsval \<Rightarrow> rendering" where
  "CellDisplay col v =
     (if v = Null \<or> v = Undefined \<or> v = Str [] then Placeholder
      else case col_type col of
             TBoolean \<Rightarrow> CheckBox (truthy v)
           | TDate \<Rightarrow> DateText v
           | TNumber \<Rightarrow> NumberText v
           | _ \<Rightarrow> PlainText v)"

text \<open>A cell is either the editor, opened on a column with an initial value, or the display.\<close>

datatype cell = CellEditor column jsval | Display rendering

definition renderCell :: "grid \<Rightarrow> row \<Rightarrow> column \<Rightarrow> cell" where
  "renderCell g row col =
     (let isEditing = (case editingCell g of
                         None \<Rightarrow> False
                       | Some (rowId, columnId) \<Rightarrow>
                           strict_eq rowId (get row ''id'') \<and> columnId = col_id col);
          v = js_or (get row (col_id col)) (Str [])
      in if isEditing then CellEditor col v else Display (CellDisplay col v))"

definition handleCellClick :: "jsval \<Rightarrow> string \<Rightarrow> grid \<Rightarrow> grid" where
  "handleCellClick rowId columnId g = g\<lparr>editingCell := Some (rowId, columnId)\<rparr>"

text \<open>\<open>onCellEdit\<close> is the application's \<open>handleRowUpdate\<close>.\<close>

definition handleCellBlur ::
  "(remote_call \<Rightarrow> bool) \<Rightarrow> jsval \<Rightarrow> string \<Rightarrow> jsval \<Rightarrow> grid \<times> app \<Rightarrow> grid \<times> app" where
  "handleCellBlur remote rowId columnId v gs =
     (case gs of (g, s) \<Rightarrow>
        (g\<lparr>editingCell := None\<rparr>, handleRowUpdate remote s rowId columnId v s))"

text \<open>\<^verbatim>\<open>new Set(xs)\<close>: the elements of \<open>xs\<close> in the order of their first occurrence.\<close>

definition new_Set :: "'a list \<Rightarrow> 'a list" where
  "new_Set xs = rev (remdups (rev xs))"

text \<open>The header checkbox: its state, and what a change of it does.\<close>

definition select_all_checked :: "grid \<Rightarrow> row list \<Rightarrow> bool" where
  "select_all_checked g rs = (length (selectedRows g) = length rs \<and> 0 < length rs)"

definition select_all_change :: "bool \<Rightarrow> row list \<Rightarrow> grid \<Rightarrow> grid" where
  "select_all_change checked rs g =
     (if checked then g\<lparr>selectedRows := new_Set (map (\<lambda>r. get r ''id'') rs)\<rparr>
      else g\<lparr>selectedRows := []\<rparr>)"

text \<open>The checkbox of a row.\<close>

definition row_checkbox_change :: "bool \<Rightarrow> row \<Rightarrow> grid \<Rightarrow> grid" where
  "row_checkbox_change checked row g =
     (let rid = get row ''id'' in
      if checked
      then g\<lparr>selectedRows := (if rid \<in> set (selectedRows g) then selectedRows g
                                else selectedRows g @ [rid])\<rparr>
      else g\<lparr>selectedRows := removeAll rid (selectedRows g)\<rparr>)"

text \<open>
  The delete button of a row: \<^verbatim>\<open>onClick={() => onRowDelete(row.id)}\<close>, where
  \<open>onRowDelete\<close> is the application's \<open>handleRowDelete\<close>.
\<close>

definition row_delete_click ::
  "(remote_call \<Rightarrow> bool) \<Rightarrow> row \<Rightarrow> grid \<times> app \<Rightarrow> grid \<times> app" where
  "row_delete_click remote row gs =
     (case gs of (g, s) \<Rightarrow> (g, handleRowDelete remote s (get row ''id'') s))"

text \<open>
  The bulk delete button:
  \<^verbatim>\<open>selectedRows.forEach(rowId => onRowDelete(rowId)); setSelectedRows(new Set())\<close>.
  Every call of the handler is a closure of the same render \<open>s\<close>; the calls settle in
  the order in which they were made.
\<close>

definition bulk_delete_click ::
  "(remote_call \<Rightarrow> bool) \<Rightarrow> grid \<times> app \<Rightarrow> grid \<times> app" where
  "bulk_delete_click remote gs =
     (case gs of (g, s) \<Rightarrow>
        (g\<lparr>selectedRows := []\<rparr>,
         foldl (\<lambda>s' rowId. handleRowDelete remote s rowId s') s (selectedRows g)))"

section \<open>An example state\<close>

text \<open>
  A table \<open>Contacts\<close> with a text column and a boolean column and two rows, as the
  application holds it after loading, and a grid over it in which the first row is
  selected.
\<close>

definition example_columns :: "column list" where
  "example_columns =
     [\<lparr>col_id = ''col_1'', col_name = ''Name'', col_type = TText, col_options = None,
        col_required = Some True, col_width = Some 200\<rparr>,
      \<lparr>col_id = ''col_2'', col_name = ''Active'', col_type = TBoolean, col_options = None,
        col_required = Some False, col_width = Some 200\<rparr>]"

definition example_row1 :: row where
  "example_row1 = [''id'' \<mapsto> Str ''row_1'', ''col_1'' \<mapsto> Str ''Ada'', ''col_2'' \<mapsto> Bool True]"

definition example_row2 :: row where
  "example_row2 = [''id'' \<mapsto> Str ''row_2'', ''col_1'' \<mapsto> Str ''Bob'', ''col_2'' \<mapsto> Bool False]"

definition example_table :: table where
  "example_table =
     \<lparr>tbl_id = ''table_1'', tbl_name = ''Contacts'', columns = example_columns,
       rows = [example_row1, example_row2], createdAt = ''2024-01-01T00:00:00.000Z'',
       updatedAt = ''2024-01-01T00:00:00.000Z'', userId = ''user_1''\<rparr>"

definition example_app :: app where
  "example_app =
     \<lparr>user = Some ''user_1'', tables = [example_table], activeTable = Some example_table,
       createTableOpen = False, toasts = [], console = [], calls = []\<rparr>"

definition example_grid :: grid where
  "example_grid = initial_grid\<lparr>selectedRows := [Str ''row_1'']\<rparr>"



text \<open>
  Two rows of a table created with a text column \<open>col_1\<close> and a number column \<open>col_2\<close>,
  as the number editor leaves them: it stores the value of the input element, a string.
\<close>

definition row_n9 :: row where
  "row_n9 = [''id'' \<mapsto> Str ''row_1700000000001'', ''col_1'' \<mapsto> Str ''Ada'',
             ''col_2'' \<mapsto> Str ''9'']"

definition row_n10 :: row where
  "row_n10 = [''id'' \<mapsto> Str ''row_1700000000002'', ''col_1'' \<mapsto> Str ''Bob'',
              ''col_2'' \<mapsto> Str ''10'']"








section \<open>Properties of the array sort\<close>

text \<open>What a consistent comparison function gives.\<close>

lemma consistent_gt_lt:
  assumes "consistent_on cmp S" "a \<in> S" "b \<in> S" "cmp a b > 0"
  shows "cmp b a < 0"
proof (rule ccontr)
  assume "\<not> cmp b a < 0"
  then consider "cmp b a = 0" | "cmp b a > 0" by linarith
  then show False
  proof cases
    case 1
    with assms have "cmp a b = 0" unfolding consistent_on_def by blast
    with assms(4) show False by simp
  next
    case 2
    with assms have "cmp a a > 0" unfolding consistent_on_def by blast
    moreover from assms have "cmp a a = 0" unfolding consistent_on_def by blast
    ultimately show False by simp
  qed
qed

lemma consistent_lt_gt:
  assumes "consistent_on cmp S" "a \<in> S" "b \<in> S" "cmp a b < 0"
  shows "cmp b a > 0"
proof (rule ccontr)
  assume "\<not> cmp b a > 0"
  then consider "cmp b a = 0" | "cmp b a < 0" by linarith
  then show False
  proof cases
    case 1
    with assms have "cmp a b = 0" unfolding consistent_on_def by blast
    with assms(4) show False by simp
  next
    case 2
    with assms have "cmp a a < 0" unfolding consistent_on_def by blast
    moreover from assms have "cmp a a = 0" unfolding consistent_on_def by blast
    ultimately show False by simp
  qed
qed

lemma consistent_total:
  assumes "consistent_on cmp S" "a \<in> S" "b \<in> S" "0 < cmp a b"
  shows "cmp b a \<le> 0"
  using consistent_gt_lt [OF assms] by simp

lemma consistent_eq_lt:
  assumes c: "consistent_on cmp S" and S: "a \<in> S" "b \<in> S" "d \<in> S"
    and ab: "cmp a b = 0" and bd: "cmp b d < 0"
  shows "cmp a d < 0"
proof (rule ccontr)
  assume "\<not> cmp a d < 0"
  then consider "cmp a d = 0" | "cmp a d > 0" by linarith
  then show False
  proof cases
    case 1
    from c S ab have "cmp b a = 0" unfolding consistent_on_def by blast
    with 1 c S have "cmp b d = 0" unfolding consistent_on_def by blast
    with bd show False by simp
  next
    case 2
    from consistent_lt_gt [OF c S(2) S(3) bd] have "cmp d b > 0" .
    with 2 c S have "cmp a b > 0" unfolding consistent_on_def by blast
    with ab show False by simp
  qed
qed

lemma consistent_lt_eq:
  assumes c: "consistent_on cmp S" and S: "a \<in> S" "b \<in> S" "d \<in> S"
    and ab: "cmp a b < 0" and bd: "cmp b d = 0"
  shows "cmp a d < 0"
proof (rule ccontr)
  assume "\<not> cmp a d < 0"
  then consider "cmp a d = 0" | "cmp a d > 0" by linarith
  then show False
  proof cases
    case 1
    from c S bd have "cmp d b = 0" unfolding consistent_on_def by blast
    with 1 c S have "cmp a b = 0" unfolding consistent_on_def by blast
    with ab show False by simp
  next
    case 2
    from consistent_lt_gt [OF c S(1) S(2) ab] have "cmp b a > 0" .
    with 2 c S have "cmp b d > 0" unfolding consistent_on_def by blast
    with bd show False by simp
  qed
qed

lemma consistent_trans:
  assumes c: "consistent_on cmp S" and S: "a \<in> S" "b \<in> S" "d \<in> S"
    and ab: "cmp a b \<le> 0" and bd: "cmp b d \<le> 0"
  shows "cmp a d \<le> 0"
proof -
  consider "cmp a b = 0" "cmp b d = 0" | "cmp a b = 0" "cmp b d < 0"
    | "cmp a b < 0" "cmp b d = 0" | "cmp a b < 0" "cmp b d < 0"
    using ab bd by linarith
  then show ?thesis
  proof cases
    case 1
    with c S have "cmp a d = 0" unfolding consistent_on_def by blast
    then show ?thesis by simp
  next
    case 2
    then show ?thesis using consistent_eq_lt [OF c S] by simp
  next
    case 3
    then show ?thesis using consistent_lt_eq [OF c S] by simp
  next
    case 4
    with c S have "cmp a d < 0" unfolding consistent_on_def by blast
    then show ?thesis by simp
  qed
qed

lemma consistent_le_le_eq:
  assumes c: "consistent_on cmp S" and S: "a \<in> S" "b \<in> S"
    and "cmp a b \<le> 0" "cmp b a \<le> 0"
  shows "cmp a b = 0"
  using consistent_lt_gt [OF c S] assms(4,5) by linarith

lemma consistent_subset: "consistent_on cmp S \<Longrightarrow> T \<subseteq> S \<Longrightarrow> consistent_on cmp T"
  unfolding consistent_on_def by (meson subsetD)


lemma mset_insert_by: "mset (insert_by cmp x ys) = add_mset x (mset ys)"
  by (induction ys) auto

lemma mset_array_sort: "mset (array_sort cmp xs) = mset xs"
  by (induction xs) (auto simp: array_sort_def mset_insert_by)

lemma set_insert_by: "set (insert_by cmp x ys) = insert x (set ys)"
  by (induction ys) auto

lemma set_array_sort: "set (array_sort cmp xs) = set xs"
  by (induction xs) (auto simp: array_sort_def set_insert_by)

lemma sorted_wrt_insert_by:
  assumes c: "consistent_on cmp S" and x: "x \<in> S"
  shows "set ys \<subseteq> S \<Longrightarrow> sorted_wrt (\<lambda>a b. cmp a b \<le> 0) ys \<Longrightarrow>
         sorted_wrt (\<lambda>a b. cmp a b \<le> 0) (insert_by cmp x ys)"
proof (induction ys)
  case Nil
  then show ?case by simp
next
  case (Cons y ys)
  show ?case
  proof (cases "cmp x y \<le> 0")
    case True
    have "cmp x z \<le> 0" if "z \<in> set ys" for z
    proof -
      from Cons.prems that have "cmp y z \<le> 0" "z \<in> S" "y \<in> S" by auto
      with True x show ?thesis using consistent_trans [OF c, of x y z] by blast
    qed
    with True Cons.prems show ?thesis by auto
  next
    case False
    with x Cons.prems have "cmp y x \<le> 0" using consistent_total [OF c, of x y] by auto
    with False Cons show ?thesis by (auto simp: set_insert_by)
  qed
qed

lemma sorted_wrt_array_sort:
  assumes c: "consistent_on cmp S"
  shows "set xs \<subseteq> S \<Longrightarrow> sorted_wrt (\<lambda>a b. cmp a b \<le> 0) (array_sort cmp xs)"
proof (induction xs)
  case Nil
  then show ?case by (simp add: array_sort_def)
next
  case (Cons x xs)
  then have "sorted_wrt (\<lambda>a b. cmp a b \<le> 0) (array_sort cmp xs)" "x \<in> S"
    "set (array_sort cmp xs) \<subseteq> S"
    by (auto simp: set_array_sort)
  then have "sorted_wrt (\<lambda>a b. cmp a b \<le> 0) (insert_by cmp x (array_sort cmp xs))"
    using sorted_wrt_insert_by [OF c, of x "array_sort cmp xs"] by blast
  then show ?case by (simp add: array_sort_def)
qed

text \<open>Insertion keeps the order of the elements that compare 0 with a given one.\<close>

lemma filter_insert_by:
  assumes c: "consistent_on cmp S" and x: "x \<in> S" and z: "z \<in> S"
  shows "set ys \<subseteq> S \<Longrightarrow>
         filter (\<lambda>y. cmp z y = 0) (insert_by cmp x ys) = filter (\<lambda>y. cmp z y = 0) (x # ys)"
proof (induction ys)
  case Nil
  then show ?case by simp
next
  case (Cons y ys)
  show ?case
  proof (cases "cmp x y \<le> 0")
    case True
    then show ?thesis by simp
  next
    case False
    from Cons have IH: "filter (\<lambda>y. cmp z y = 0) (insert_by cmp x ys)
        = filter (\<lambda>y. cmp z y = 0) (x # ys)" and y: "y \<in> S" by auto
    have "\<not> (cmp z x = 0 \<and> cmp z y = 0)"
    proof
      assume h: "cmp z x = 0 \<and> cmp z y = 0"
      with c x z have "cmp x z = 0" unfolding consistent_on_def by blast
      with h c x y z have "cmp x y = 0" unfolding consistent_on_def by blast
      with False show False by simp
    qed
    with False IH show ?thesis by auto
  qed
qed

lemma filter_array_sort:
  assumes c: "consistent_on cmp S" and z: "z \<in> S"
  shows "set xs \<subseteq> S \<Longrightarrow>
         filter (\<lambda>y. cmp z y = 0) (array_sort cmp xs) = filter (\<lambda>y. cmp z y = 0) xs"
proof (induction xs)
  case Nil
  then show ?case by (simp add: array_sort_def)
next
  case (Cons x xs)
  then have x: "x \<in> S" and s: "set (array_sort cmp xs) \<subseteq> S"
    and IH: "filter (\<lambda>y. cmp z y = 0) (array_sort cmp xs) = filter (\<lambda>y. cmp z y = 0) xs"
    by (auto simp: set_array_sort)
  have "filter (\<lambda>y. cmp z y = 0) (insert_by cmp x (array_sort cmp xs))
      = filter (\<lambda>y. cmp z y = 0) (x # array_sort cmp xs)"
    by (rule filter_insert_by [OF c x z s])
  with IH show ?case by (simp add: array_sort_def)
qed

lemma array_sort_stably_sorted:
  "consistent_on cmp (set xs) \<Longrightarrow> stably_sorted cmp xs (array_sort cmp xs)"
  unfolding stably_sorted_def
  using mset_array_sort [of cmp xs] sorted_wrt_array_sort [of cmp "set xs" xs]
    filter_array_sort [of cmp "set xs" _ xs]
  by auto


text \<open>The stable sort of a list under a consistent comparison function is unique.\<close>

lemma stably_sorted_unique_aux:
  assumes c: "consistent_on cmp S"
  shows "set ys \<subseteq> S \<Longrightarrow> mset ys = mset zs \<Longrightarrow>
     sorted_wrt (\<lambda>a b. cmp a b \<le> 0) ys \<Longrightarrow> sorted_wrt (\<lambda>a b. cmp a b \<le> 0) zs \<Longrightarrow>
     (\<forall>x\<in>S. filter (\<lambda>y. cmp x y = 0) ys = filter (\<lambda>y. cmp x y = 0) zs) \<Longrightarrow> ys = zs"
proof (induction ys arbitrary: zs)
  case Nil
  then show ?case by simp
next
  case (Cons y ys)
  from Cons.prems(2) have "zs \<noteq> []" by auto
  then obtain z zs' where zs: "zs = z # zs'" by (cases zs) auto
  from Cons.prems(1) have yS: "y \<in> S" by simp
  from Cons.prems(2) have sets: "set (y # ys) = set zs" by (metis set_mset_mset)
  with zs Cons.prems(1) have zS: "z \<in> S" by auto
  have yy: "cmp y y = 0" using c yS unfolding consistent_on_def by blast
  have "y = z"
  proof (rule ccontr)
    assume ne: "y \<noteq> z"
    from sets zs ne have "y \<in> set zs'" by auto
    with Cons.prems(4) zs have zy: "cmp z y \<le> 0" by auto
    from sets zs ne have "z \<in> set ys" by auto
    with Cons.prems(3) have yz: "cmp y z \<le> 0" by auto
    from consistent_le_le_eq [OF c yS zS yz zy] have e: "cmp y z = 0" .
    from Cons.prems(5) yS have "filter (\<lambda>w. cmp y w = 0) (y # ys) = filter (\<lambda>w. cmp y w = 0) zs"
      by blast
    with yy e zs have "y = z" by simp
    with ne show False by simp
  qed
  with zs have zs': "zs = y # zs'" by simp
  have "ys = zs'"
  proof (rule Cons.IH)
    show "set ys \<subseteq> S" using Cons.prems(1) by simp
    show "mset ys = mset zs'" using Cons.prems(2) zs' by simp
    show "sorted_wrt (\<lambda>a b. cmp a b \<le> 0) ys" using Cons.prems(3) by simp
    show "sorted_wrt (\<lambda>a b. cmp a b \<le> 0) zs'" using Cons.prems(4) zs' by simp
    show "\<forall>x\<in>S. filter (\<lambda>y. cmp x y = 0) ys = filter (\<lambda>y. cmp x y = 0) zs'"
    proof
      fix x assume "x \<in> S"
      with Cons.prems(5) zs' have "filter (\<lambda>w. cmp x w = 0) (y # ys) = filter (\<lambda>w. cmp x w = 0) (y # zs')"
        by simp
      then show "filter (\<lambda>y. cmp x y = 0) ys = filter (\<lambda>y. cmp x y = 0) zs'"
        by (cases "cmp x y = 0") simp_all
    qed
  qed
  with zs' show ?case by simp
qed

lemma stably_sorted_unique:
  assumes c: "consistent_on cmp (set xs)"
    and ys: "stably_sorted cmp xs ys" and zs: "stably_sorted cmp xs zs"
  shows "ys = zs"
proof (rule stably_sorted_unique_aux [OF c])
  from ys have "mset ys = mset xs" by (simp add: stably_sorted_def)
  then show "set ys \<subseteq> set xs" by (metis set_mset_mset subset_refl)
  from ys zs show "mset ys = mset zs" by (simp add: stably_sorted_def)
  from ys show "sorted_wrt (\<lambda>a b. cmp a b \<le> 0) ys" by (simp add: stably_sorted_def)
  from zs show "sorted_wrt (\<lambda>a b. cmp a b \<le> 0) zs" by (simp add: stably_sorted_def)
  from ys zs show "\<forall>x\<in>set xs. filter (\<lambda>y. cmp x y = 0) ys = filter (\<lambda>y. cmp x y = 0) zs"
    by (simp add: stably_sorted_def)
qed

lemma conforming_array_sort_eq:
  "conforming srt \<Longrightarrow> consistent_on cmp (set xs) \<Longrightarrow> srt cmp xs = array_sort cmp xs"
  by (rule stably_sorted_unique [of cmp xs])
     (auto simp: conforming_def intro: array_sort_stably_sorted)










section \<open>Properties of the comparison\<close>

lemma num_lt_asym: "num_lt a b \<Longrightarrow> \<not> num_lt b a"
  by (cases a; cases b) auto

lemma num_lt_NaN_right [simp]: "\<not> num_lt n NaN"
  by (cases n) auto

lemma num_lt_trans:
  "num_lt a b \<Longrightarrow> num_lt b c \<Longrightarrow> num_lt a c"
  by (cases a; cases b; cases c) auto

lemma num_lt_trans_neg:
  "a \<noteq> NaN \<Longrightarrow> b \<noteq> NaN \<Longrightarrow> c \<noteq> NaN \<Longrightarrow>
   \<not> num_lt b a \<Longrightarrow> \<not> num_lt c b \<Longrightarrow> \<not> num_lt c a"
  by (cases a; cases b; cases c) auto

lemma js_lt_asym: "js_lt s2n a b \<Longrightarrow> \<not> js_lt s2n b a"
  by (cases "(s2n, a, b)" rule: js_lt.cases) (auto dest: num_lt_asym)

lemma js_lt_numeric:
  "(\<forall>s. a \<noteq> Str s) \<or> (\<forall>t. b \<noteq> Str t) \<Longrightarrow>
   js_lt s2n a b = num_lt (ToNumber s2n a) (ToNumber s2n b)"
  by (cases "(s2n, a, b)" rule: js_lt.cases) auto

text \<open>
  A column is uniform when it holds only strings, or only values other than strings whose
  conversion to a number is not NaN: numbers other than NaN, booleans, null. On a uniform
  column the native ordering is transitive, and so is its complement.
\<close>

lemma js_lt_uniform_trans:
  assumes "(\<forall>r\<in>S. \<exists>s. get r c = Str s) \<or>
           (\<forall>r\<in>S. (\<forall>s. get r c \<noteq> Str s) \<and> ToNumber s2n (get r c) \<noteq> NaN)"
    and "a \<in> S" "b \<in> S" "d \<in> S"
    and "js_lt s2n (get a c) (get b c)" "js_lt s2n (get b c) (get d c)"
  shows "js_lt s2n (get a c) (get d c)"
  using assms(1)
proof
  assume "\<forall>r\<in>S. \<exists>s. get r c = Str s"
  with assms(2-4) obtain x y z where "get a c = Str x" "get b c = Str y" "get d c = Str z"
    by blast
  with assms(5,6) show ?thesis by simp
next
  assume h: "\<forall>r\<in>S. (\<forall>s. get r c \<noteq> Str s) \<and> ToNumber s2n (get r c) \<noteq> NaN"
  with assms(2-4) have n: "\<forall>s. get a c \<noteq> Str s" "\<forall>s. get b c \<noteq> Str s" "\<forall>s. get d c \<noteq> Str s"
    by blast+
  from assms(5,6) n show ?thesis
    by (simp add: js_lt_numeric) (rule num_lt_trans)
qed

lemma js_lt_uniform_trans_neg:
  assumes "(\<forall>r\<in>S. \<exists>s. get r c = Str s) \<or>
           (\<forall>r\<in>S. (\<forall>s. get r c \<noteq> Str s) \<and> ToNumber s2n (get r c) \<noteq> NaN)"
    and "a \<in> S" "b \<in> S" "d \<in> S"
    and "\<not> js_lt s2n (get a c) (get b c)" "\<not> js_lt s2n (get b c) (get d c)"
  shows "\<not> js_lt s2n (get a c) (get d c)"
  using assms(1)
proof
  assume "\<forall>r\<in>S. \<exists>s. get r c = Str s"
  with assms(2-4) obtain x y z where "get a c = Str x" "get b c = Str y" "get d c = Str z"
    by blast
  with assms(5,6) show ?thesis by simp
next
  assume h: "\<forall>r\<in>S. (\<forall>s. get r c \<noteq> Str s) \<and> ToNumber s2n (get r c) \<noteq> NaN"
  with assms(2-4) have n: "\<forall>s. get a c \<noteq> Str s" "\<forall>s. get b c \<noteq> Str s" "\<forall>s. get d c \<noteq> Str s"
    and m: "ToNumber s2n (get a c) \<noteq> NaN" "ToNumber s2n (get b c) \<noteq> NaN"
      "ToNumber s2n (get d c) \<noteq> NaN"
    by blast+
  from assms(5,6) n show ?thesis
    using num_lt_trans_neg [OF m(3) m(2) m(1)] by (simp add: js_lt_numeric)
qed

text \<open>The comparator in terms of the native ordering.\<close>

lemma compare_rows_lt0_Asc:
  "c \<noteq> [] \<Longrightarrow> (compare_rows s2n (Some c) Asc a b < 0) = js_lt s2n (get a c) (get b c)"
  by (auto simp: compare_rows_def js_gt_def Let_def)

lemma compare_rows_gt0_Asc:
  "c \<noteq> [] \<Longrightarrow> (compare_rows s2n (Some c) Asc a b > 0) = js_lt s2n (get b c) (get a c)"
  by (auto simp: compare_rows_def js_gt_def Let_def dest: js_lt_asym)

lemma compare_rows_eq0_Asc:
  "c \<noteq> [] \<Longrightarrow> (compare_rows s2n (Some c) Asc a b = 0)
     = (\<not> js_lt s2n (get a c) (get b c) \<and> \<not> js_lt s2n (get b c) (get a c))"
  by (auto simp: compare_rows_def js_gt_def Let_def)

lemma compare_rows_le0_Asc:
  "c \<noteq> [] \<Longrightarrow>
   (compare_rows s2n (Some c) Asc a b \<le> 0) = (\<not> js_lt s2n (get b c) (get a c))"
  by (auto simp: compare_rows_def js_gt_def Let_def dest: js_lt_asym)


lemma compare_rows_Desc: "compare_rows s2n sc Desc a b = compare_rows s2n sc Asc b a"
  by (auto simp: compare_rows_def js_gt_def Let_def split: option.splits dest: js_lt_asym)

lemma compare_rows_no_column:
  "sc = None \<or> sc = Some [] \<Longrightarrow> compare_rows s2n sc sd a b = 0"
  by (auto simp: compare_rows_def)

lemma consistent_on_flip:
  assumes "consistent_on cmp S" and "\<And>a b. cmp' a b = cmp b a"
  shows "consistent_on cmp' S"
  using assms(1) unfolding consistent_on_def assms(2) by blast

text \<open>On a uniform column, and with no sort column, the comparator is consistent.\<close>

lemma compare_rows_consistent_Asc:
  assumes u: "(\<forall>r\<in>S. \<exists>s. get r c = Str s) \<or>
           (\<forall>r\<in>S. (\<forall>s. get r c \<noteq> Str s) \<and> ToNumber s2n (get r c) \<noteq> NaN)"
  shows "consistent_on (compare_rows s2n (Some c) Asc) S"
proof (cases "c = []")
  case True
  then show ?thesis by (simp add: consistent_on_def compare_rows_no_column)
next
  case c: False
  let ?cmp = "compare_rows s2n (Some c) Asc"
  note lt = compare_rows_lt0_Asc [OF c] and gt = compare_rows_gt0_Asc [OF c]
    and eq = compare_rows_eq0_Asc [OF c]
  have r: "?cmp a a = 0" for a
    unfolding eq using js_lt_asym by blast
  have s: "?cmp a b = 0 \<Longrightarrow> ?cmp b a = 0" for a b
    unfolding eq by blast
  have t0: "?cmp a d = 0"
    if S: "a \<in> S" "b \<in> S" "d \<in> S" and h: "?cmp a b = 0" "?cmp b d = 0" for a b d
  proof -
    from h have n: "\<not> js_lt s2n (get a c) (get b c)" "\<not> js_lt s2n (get b c) (get a c)"
      "\<not> js_lt s2n (get b c) (get d c)" "\<not> js_lt s2n (get d c) (get b c)"
      unfolding eq by blast+
    have "\<not> js_lt s2n (get a c) (get d c)"
      by (rule js_lt_uniform_trans_neg [OF u S(1) S(2) S(3) n(1) n(3)])
    moreover have "\<not> js_lt s2n (get d c) (get a c)"
      by (rule js_lt_uniform_trans_neg [OF u S(3) S(2) S(1) n(4) n(2)])
    ultimately show ?thesis unfolding eq by blast
  qed
  have tl: "?cmp a d < 0"
    if S: "a \<in> S" "b \<in> S" "d \<in> S" and h: "?cmp a b < 0" "?cmp b d < 0" for a b d
    using js_lt_uniform_trans [OF u S(1) S(2) S(3)] h unfolding lt by blast
  have tg: "?cmp a d > 0"
    if S: "a \<in> S" "b \<in> S" "d \<in> S" and h: "?cmp a b > 0" "?cmp b d > 0" for a b d
    using js_lt_uniform_trans [OF u S(3) S(2) S(1)] h unfolding gt by blast
  show ?thesis
    unfolding consistent_on_def
  proof (intro conjI ballI impI)
    fix a show "?cmp a a = 0" by (rule r)
  next
    fix a b assume "?cmp a b = 0" then show "?cmp b a = 0" by (rule s)
  next
    fix a b d assume "a \<in> S" "b \<in> S" "d \<in> S" "?cmp a b = 0 \<and> ?cmp b d = 0"
    then show "?cmp a d = 0" using t0 by blast
  next
    fix a b d assume "a \<in> S" "b \<in> S" "d \<in> S" "?cmp a b < 0 \<and> ?cmp b d < 0"
    then show "?cmp a d < 0" using tl by blast
  next
    fix a b d assume "a \<in> S" "b \<in> S" "d \<in> S" "0 < ?cmp a b \<and> 0 < ?cmp b d"
    then show "0 < ?cmp a d" using tg by blast
  qed
qed

lemma compare_rows_consistent:
  assumes "(\<forall>r\<in>S. \<exists>s. get r c = Str s) \<or>
           (\<forall>r\<in>S. (\<forall>s. get r c \<noteq> Str s) \<and> ToNumber s2n (get r c) \<noteq> NaN)"
  shows "consistent_on (compare_rows s2n (Some c) sd) S"
proof (cases sd)
  case Asc
  with assms show ?thesis by (simp add: compare_rows_consistent_Asc)
next
  case Desc
  have "consistent_on (compare_rows s2n (Some c) Desc) S"
    by (rule consistent_on_flip [OF compare_rows_consistent_Asc [OF assms]])
       (rule compare_rows_Desc)
  with Desc show ?thesis by simp
qed


section \<open>The sorted rows\<close>

text \<open>
  Where the comparator agrees with a linear order on keys, the insertion sort is the
  stable sort by key of the library, and so is every sort that meets the contract.
\<close>

lemma insert_by_insort_key:
  "\<forall>y\<in>set ys. (cmp x y \<le> 0) = (k x \<le> k y) \<Longrightarrow> insert_by cmp x ys = insort_key k x ys"
  by (induction ys) auto

lemma array_sort_sort_key:
  "\<forall>x\<in>set xs. \<forall>y\<in>set xs. (cmp x y \<le> 0) = (k x \<le> k y) \<Longrightarrow>
   array_sort cmp xs = sort_key k xs"
proof (induction xs)
  case Nil
  then show ?case by (simp add: array_sort_def)
next
  case (Cons x xs)
  then have IH: "array_sort cmp xs = sort_key k xs" by simp
  from Cons.prems have "\<forall>y\<in>set (sort_key k xs). (cmp x y \<le> 0) = (k x \<le> k y)" by simp
  then have "insert_by cmp x (sort_key k xs) = insort_key k x (sort_key k xs)"
    by (rule insert_by_insort_key)
  with IH show ?case by (simp add: array_sort_def)
qed

lemma sortedRows_uniform:
  assumes eng: "conforming srt"
    and u: "(\<forall>r\<in>set rs. \<exists>s. get r c = Str s) \<or>
           (\<forall>r\<in>set rs. (\<forall>s. get r c \<noteq> Str s) \<and> ToNumber s2n (get r c) \<noteq> NaN)"
  shows "sortedRows srt s2n rs (Some c) sd = array_sort (compare_rows s2n (Some c) sd) rs"
  unfolding sortedRows_def
  by (rule conforming_array_sort_eq [OF eng compare_rows_consistent [OF u]])

lemma sortedRows_sort_key:
  assumes eng: "conforming srt"
    and u: "(\<forall>r\<in>set rs. \<exists>s. get r c = Str s) \<or>
           (\<forall>r\<in>set rs. (\<forall>s. get r c \<noteq> Str s) \<and> ToNumber s2n (get r c) \<noteq> NaN)"
    and k: "\<And>a b. a \<in> set rs \<Longrightarrow> b \<in> set rs \<Longrightarrow>
             (compare_rows s2n (Some c) sd a b \<le> 0) = (k a \<le> k b)"
  shows "sortedRows srt s2n rs (Some c) sd = sort_key k rs"
  unfolding sortedRows_uniform [OF eng u]
  by (rule array_sort_sort_key) (simp add: k)

lemma sortedRows_strings:
  assumes eng: "conforming srt" and c: "c \<noteq> []"
    and v: "\<forall>r\<in>set rs. get r c = Str (ks r)"
  shows "sortedRows srt s2n rs (Some c) Asc = sort_key ks rs"
proof (rule sortedRows_sort_key [OF eng])
  show "(\<forall>r\<in>set rs. \<exists>s. get r c = Str s) \<or>
        (\<forall>r\<in>set rs. (\<forall>s. get r c \<noteq> Str s) \<and> ToNumber s2n (get r c) \<noteq> NaN)"
    using v by blast
next
  fix a b assume "a \<in> set rs" "b \<in> set rs"
  with v have "get a c = Str (ks a)" "get b c = Str (ks b)" by auto
  then show "(compare_rows s2n (Some c) Asc a b \<le> 0) = (ks a \<le> ks b)"
    unfolding compare_rows_le0_Asc [OF c] by auto
qed




text \<open>
  Digit strings are strings: on every sort that meets the contract the row that holds
  \<open>10\<close> comes before the row that holds \<open>9\<close>.
\<close>

lemma digit_strings_lexicographic:
  assumes "conforming srt"
  shows "sortedRows srt s2n [row_n9, row_n10] (Some ''col_2'') Asc = [row_n10, row_n9]"
proof -
  let ?ks = "\<lambda>r. case get r ''col_2'' of Str s \<Rightarrow> s | _ \<Rightarrow> []"
  have v: "get row_n9 ''col_2'' = Str ''9''" "get row_n10 ''col_2'' = Str ''10''"
    by (simp_all add: get_def row_n9_def row_n10_def)
  then have "\<forall>r\<in>set [row_n9, row_n10]. get r ''col_2'' = Str (?ks r)" by simp
  with assms have "sortedRows srt s2n [row_n9, row_n10] (Some ''col_2'') Asc
      = sort_key ?ks [row_n9, row_n10]"
    by (intro sortedRows_strings) simp_all
  with v show ?thesis by simp
qed








section \<open>Sort state\<close>

text \<open>
  C8: clicking the column that is currently sorted flips the direction between ascending
  and descending, so that two clicks restore the direction, and clicking any other column
  makes it the sort column with direction ascending.
\<close>

theorem handleSort_toggle:
  "(sortColumn g = Some c \<longrightarrow>
      sortColumn (handleSort c g) = Some c \<and>
      sortDirection (handleSort c g) = (if sortDirection g = Asc then Desc else Asc) \<and>
      sortDirection (handleSort c g) \<noteq> sortDirection g \<and>
      handleSort c (handleSort c g) = g) \<and>
   (sortColumn g \<noteq> Some c \<longrightarrow>
      sortColumn (handleSort c g) = Some c \<and> sortDirection (handleSort c g) = Asc)"
  by (cases "sortDirection g") (auto simp: handleSort_def)

theorem handleSort_toggle_witness:
  "sortColumn initial_grid \<noteq> Some ''col_1'' \<and>
   sortColumn (handleSort ''col_1'' initial_grid) = Some ''col_1'' \<and>
   sortDirection (handleSort ''col_1'' initial_grid) = Asc \<and>
   sortDirection (handleSort ''col_1'' (handleSort ''col_1'' initial_grid)) = Desc \<and>
   handleSort ''col_1'' (handleSort ''col_1'' (handleSort ''col_1'' initial_grid))
     = handleSort ''col_1'' initial_grid \<and>
   sortColumn (handleSort ''col_2'' (handleSort ''col_1'' (handleSort ''col_1'' initial_grid)))
     = Some ''col_2'' \<and>
   sortDirection (handleSort ''col_2'' (handleSort ''col_1'' (handleSort ''col_1'' initial_grid)))
     = Asc"
  using handleSort_toggle [of initial_grid "''col_1''"]
        handleSort_toggle [of "handleSort ''col_1'' initial_grid" "''col_1''"]
        handleSort_toggle [of "handleSort ''col_1'' (handleSort ''col_1'' initial_grid)" "''col_2''"]
  by (simp add: initial_grid_def)

section \<open>Creating a table\<close>

lemma handleCreateTable_ok:
  "user cl = Some u \<Longrightarrow> remote (TablesCreate (''table_'' @ string_of_nat now) name cols u) \<Longrightarrow>
   tables (handleCreateTable remote cl now ts1 ts2 name cols s) =
     \<lparr>tbl_id = ''table_'' @ string_of_nat now, tbl_name = name, columns = cols, rows = [],
       createdAt = ts1, updatedAt = ts2, userId = u\<rparr> # tables s \<and>
   activeTable (handleCreateTable remote cl now ts1 ts2 name cols s) =
     Some \<lparr>tbl_id = ''table_'' @ string_of_nat now, tbl_name = name, columns = cols, rows = [],
       createdAt = ts1, updatedAt = ts2, userId = u\<rparr>"
  by (simp add: handleCreateTable_def Let_def success_toast_def issue_def)

lemma handleCreateTable_rejected:
  "user cl = Some u \<Longrightarrow> \<not> remote (TablesCreate (''table_'' @ string_of_nat now) name cols u) \<Longrightarrow>
   tables (handleCreateTable remote cl now ts1 ts2 name cols s) = tables s \<and>
   activeTable (handleCreateTable remote cl now ts1 ts2 name cols s) = activeTable s"
  by (simp add: handleCreateTable_def Let_def failed_def issue_def)

lemma handleCreate_valid:
  "trim name \<noteq> [] \<Longrightarrow> cols \<noteq> [] \<Longrightarrow>
   snd (handleCreate remote now ts1 ts2 (\<lparr>tableName = name, dlg_columns = cols\<rparr>, s)) =
     (handleCreateTable remote s now ts1 ts2 (trim name) cols s)\<lparr>createTableOpen := False\<rparr>"
  by (simp add: handleCreate_def)

lemma trim_example: "trim '' Orders  '' = ''Orders''"
  by (simp add: trim_def is_space_def)

text \<open>
  C5: for every name whose trimmed content is not empty and every list of at least one
  column, with a user signed in, creating the table from the dialog gives, when the
  remote write succeeds, a table with the trimmed name, the given columns in their order
  and no rows, put in front of the local table list and made the active table; when the
  remote write fails, the table list and the active table are as before.
\<close>

theorem createTable_prepends:
  assumes name: "trim name \<noteq> []" and cols: "cols \<noteq> []" and usr: "user s = Some u"
  shows "(remote (TablesCreate (''table_'' @ string_of_nat now) (trim name) cols u) \<longrightarrow>
       (\<exists>t. tables (snd (handleCreate remote now ts1 ts2 (\<lparr>tableName = name, dlg_columns = cols\<rparr>, s)))
               = t # tables s \<and>
            activeTable (snd (handleCreate remote now ts1 ts2 (\<lparr>tableName = name, dlg_columns = cols\<rparr>, s)))
               = Some t \<and>
            tbl_name t = trim name \<and> columns t = cols \<and> rows t = [])) \<and>
     (\<not> remote (TablesCreate (''table_'' @ string_of_nat now) (trim name) cols u) \<longrightarrow>
        tables (snd (handleCreate remote now ts1 ts2 (\<lparr>tableName = name, dlg_columns = cols\<rparr>, s)))
          = tables s \<and>
        activeTable (snd (handleCreate remote now ts1 ts2 (\<lparr>tableName = name, dlg_columns = cols\<rparr>, s)))
          = activeTable s)"
  unfolding handleCreate_valid [OF name cols]
  using handleCreateTable_ok [OF usr, of remote now "trim name" cols ts1 ts2 s]
    handleCreateTable_rejected [OF usr, of remote now "trim name" cols ts1 ts2 s]
  by auto

theorem createTable_prepends_witness:
  "trim '' Orders  '' \<noteq> [] \<and> default_columns \<noteq> [] \<and> user example_app = Some ''user_1'' \<and>
   tables (snd (handleCreate (\<lambda>c. True) 1700000000000 ''t1'' ''t2''
                  (\<lparr>tableName = '' Orders  '', dlg_columns = default_columns\<rparr>, example_app)))
     = [\<lparr>tbl_id = ''table_1700000000000'', tbl_name = ''Orders'', columns = default_columns,
          rows = [], createdAt = ''t1'', updatedAt = ''t2'', userId = ''user_1''\<rparr>, example_table] \<and>
   activeTable (snd (handleCreate (\<lambda>c. True) 1700000000000 ''t1'' ''t2''
                  (\<lparr>tableName = '' Orders  '', dlg_columns = default_columns\<rparr>, example_app)))
     = Some \<lparr>tbl_id = ''table_1700000000000'', tbl_name = ''Orders'', columns = default_columns,
          rows = [], createdAt = ''t1'', updatedAt = ''t2'', userId = ''user_1''\<rparr> \<and>
   tables (snd (handleCreate (\<lambda>c. False) 1700000000000 ''t1'' ''t2''
                  (\<lparr>tableName = '' Orders  '', dlg_columns = default_columns\<rparr>, example_app)))
     = [example_table] \<and>
   activeTable (snd (handleCreate (\<lambda>c. False) 1700000000000 ''t1'' ''t2''
                  (\<lparr>tableName = '' Orders  '', dlg_columns = default_columns\<rparr>, example_app)))
     = Some example_table"
proof -
  have n: "trim '' Orders  '' \<noteq> []" by (simp add: trim_example)
  have c: "default_columns \<noteq> []" by (simp add: default_columns_def)
  have u: "user example_app = Some ''user_1''" by (simp add: example_app_def)
  have t: "tables example_app = [example_table]" "activeTable example_app = Some example_table"
    by (simp_all add: example_app_def)
  have i: "string_of_nat 1700000000000 = ''1700000000000''"
    by (simp add: string_of_nat.simps)
  from createTable_prepends [OF n c u, of "\<lambda>c. True" 1700000000000 "''t1''" "''t2''"]
  obtain x where x: "tables (snd (handleCreate (\<lambda>c. True) 1700000000000 ''t1'' ''t2''
                  (\<lparr>tableName = '' Orders  '', dlg_columns = default_columns\<rparr>, example_app)))
     = x # tables example_app" by auto
  have ok: "snd (handleCreate (\<lambda>c. True) 1700000000000 ''t1'' ''t2''
                  (\<lparr>tableName = '' Orders  '', dlg_columns = default_columns\<rparr>, example_app))
    = (handleCreateTable (\<lambda>c. True) example_app 1700000000000 ''t1'' ''t2'' ''Orders'' default_columns example_app)
        \<lparr>createTableOpen := False\<rparr>"
    using handleCreate_valid [OF n c] by (simp add: trim_example)
  have no: "snd (handleCreate (\<lambda>c. False) 1700000000000 ''t1'' ''t2''
                  (\<lparr>tableName = '' Orders  '', dlg_columns = default_columns\<rparr>, example_app))
    = (handleCreateTable (\<lambda>c. False) example_app 1700000000000 ''t1'' ''t2'' ''Orders'' default_columns example_app)
        \<lparr>createTableOpen := False\<rparr>"
    using handleCreate_valid [OF n c] by (simp add: trim_example)
  from x n c u show ?thesis
    unfolding ok no
    using handleCreateTable_ok [OF u, of "\<lambda>c. True" 1700000000000 "''Orders''" default_columns "''t1''" "''t2''" example_app]
      handleCreateTable_rejected [OF u, of "\<lambda>c. False" 1700000000000 "''Orders''" default_columns "''t1''" "''t2''" example_app]
    by (auto simp: t i)
qed

section \<open>Adding and deleting a column\<close>

text \<open>
  C9: for every active table, when the remote write succeeds, adding a column appends
  exactly one column, with the generated identifier, type text and width 200, to the end
  of the column list and leaves the rows as they are. With the keys of every row among
  \<open>id\<close> and the identifiers of the columns, and the generated identifier not already
  that of a column, the key of the new column is in no row.
\<close>

theorem addColumn_appends:
  assumes act: "activeTable s = Some t" and ok: "\<forall>c. remote c"
    and keys: "\<forall>r\<in>set (rows t). dom r \<subseteq> insert ''id'' (col_id ` set (columns t))"
    and fresh: "''col_'' @ string_of_nat now \<notin> col_id ` set (columns t)"
  shows "\<exists>t' c. activeTable (handleColumnAdd remote s now ts s) = Some t' \<and>
      tables (handleColumnAdd remote s now ts s)
        = map (\<lambda>x. if tbl_id x = tbl_id t then t' else x) (tables s) \<and>
      columns t' = columns t @ [c] \<and>
      col_id c = ''col_'' @ string_of_nat now \<and> col_type c = TText \<and> col_width c = Some 200 \<and>
      rows t' = rows t \<and>
      (\<forall>r\<in>set (rows t'). col_id c \<notin> dom r)"
proof -
  let ?c = "\<lparr>col_id = ''col_'' @ string_of_nat now,
             col_name = ''Column '' @ string_of_nat (length (columns t) + 1),
             col_type = TText, col_options = None, col_required = Some False,
             col_width = Some 200\<rparr>"
  let ?t' = "t\<lparr>columns := columns t @ [?c]\<rparr>"
  have a: "activeTable (handleColumnAdd remote s now ts s) = Some ?t'"
    using act ok
    by (simp add: handleColumnAdd_def Let_def success_toast_def replace_table_def issue_def)
  have b: "tables (handleColumnAdd remote s now ts s)
        = map (\<lambda>x. if tbl_id x = tbl_id t then ?t' else x) (tables s)"
    using act ok
    by (simp add: handleColumnAdd_def Let_def success_toast_def replace_table_def issue_def)
  have n: "''col_'' @ string_of_nat now \<noteq> ''id''" by simp
  have k: "\<forall>r\<in>set (rows t). ''col_'' @ string_of_nat now \<notin> dom r"
  proof
    fix r assume "r \<in> set (rows t)"
    with keys have "dom r \<subseteq> insert ''id'' (col_id ` set (columns t))" by blast
    with fresh n show "''col_'' @ string_of_nat now \<notin> dom r" by blast
  qed
  from a b k show ?thesis by (intro exI [of _ ?t'] exI [of _ ?c]) simp
qed

theorem addColumn_appends_witness:
  "activeTable example_app = Some example_table \<and>
   dom example_row1 \<subseteq> insert ''id'' (col_id ` set (columns example_table)) \<and>
   dom example_row2 \<subseteq> insert ''id'' (col_id ` set (columns example_table)) \<and>
   ''col_'' @ string_of_nat 1700000000000 \<notin> col_id ` set (columns example_table) \<and>
   activeTable (handleColumnAdd (\<lambda>c. True) example_app 1700000000000 ''2024-01-02T00:00:00.000Z'' example_app)
     = Some (example_table\<lparr>columns := example_columns @
          [\<lparr>col_id = ''col_1700000000000'', col_name = ''Column 3'', col_type = TText,
            col_options = None, col_required = Some False, col_width = Some 200\<rparr>]\<rparr>) \<and>
   ''col_1700000000000'' \<notin> dom example_row1 \<and> ''col_1700000000000'' \<notin> dom example_row2"
proof -
  have a: "activeTable example_app = Some example_table" by (simp add: example_app_def)
  have k: "\<forall>c. (\<lambda>c. True) c" by simp
  have i: "string_of_nat 1700000000000 = ''1700000000000''"
    "string_of_nat (Suc (Suc (Suc 0))) = ''3''"
    by (simp_all add: string_of_nat.simps)
  have d1: "dom example_row1 \<subseteq> insert ''id'' (col_id ` set (columns example_table))"
    by (auto simp: example_row1_def example_table_def example_columns_def split: if_splits)
  have d2: "dom example_row2 \<subseteq> insert ''id'' (col_id ` set (columns example_table))"
    by (auto simp: example_row2_def example_table_def example_columns_def split: if_splits)
  from d1 d2 have d: "\<forall>r\<in>set (rows example_table).
       dom r \<subseteq> insert ''id'' (col_id ` set (columns example_table))"
    by (simp add: example_table_def)
  have f: "''col_'' @ string_of_nat 1700000000000 \<notin> col_id ` set (columns example_table)"
    by (simp add: i example_table_def example_columns_def)
  have n1: "''col_1700000000000'' \<notin> dom example_row1" by (simp add: example_row1_def)
  have n2: "''col_1700000000000'' \<notin> dom example_row2" by (simp add: example_row2_def)
  have e: "activeTable (handleColumnAdd (\<lambda>c. True) example_app 1700000000000 ''2024-01-02T00:00:00.000Z'' example_app)
     = Some (example_table\<lparr>columns := example_columns @
          [\<lparr>col_id = ''col_1700000000000'', col_name = ''Column 3'', col_type = TText,
            col_options = None, col_required = Some False, col_width = Some 200\<rparr>]\<rparr>)"
    by (simp add: handleColumnAdd_def Let_def success_toast_def replace_table_def issue_def i
        example_app_def example_table_def example_columns_def)
  from addColumn_appends [OF a k d f, of "''2024-01-02T00:00:00.000Z''"] a d1 d2 f e n1 n2
  show ?thesis by simp
qed

text \<open>
  C3: for every active table and every column identifier, when the remote writes succeed,
  deleting the column gives a table whose column list is the old one without the columns
  of that identifier, every other column kept in its place, and whose rows are the old
  rows without that key, every other key kept with its value.
\<close>

theorem deleteColumn_strips:
  assumes act: "activeTable s = Some t" and ok: "\<forall>c. remote c"
  shows "\<exists>t'. activeTable (handleColumnDelete remote s ts colId s) = Some t' \<and>
      tables (handleColumnDelete remote s ts colId s)
        = map (\<lambda>x. if tbl_id x = tbl_id t then t' else x) (tables s) \<and>
      columns t' = filter (\<lambda>c. col_id c \<noteq> colId) (columns t) \<and>
      colId \<notin> col_id ` set (columns t') \<and>
      (\<forall>c\<in>set (columns t). col_id c \<noteq> colId \<longrightarrow> c \<in> set (columns t')) \<and>
      length (rows t') = length (rows t) \<and>
      (\<forall>r\<in>set (rows t'). colId \<notin> dom r) \<and>
      (\<forall>i<length (rows t). \<forall>k. k \<noteq> colId \<longrightarrow> (rows t' ! i) k = (rows t ! i) k)"
proof -
  let ?t' = "t\<lparr>columns := filter (\<lambda>c. col_id c \<noteq> colId) (columns t),
                rows := map (\<lambda>row. row(colId := None)) (rows t)\<rparr>"
  have all: "list_all remote xs" for xs using ok by (simp add: list_all_iff)
  have a: "activeTable (handleColumnDelete remote s ts colId s) = Some ?t'"
    using act ok all
    by (simp add: handleColumnDelete_def Let_def success_toast_def replace_table_def issue_def)
  have b: "tables (handleColumnDelete remote s ts colId s)
        = map (\<lambda>x. if tbl_id x = tbl_id t then ?t' else x) (tables s)"
    using act ok all
    by (simp add: handleColumnDelete_def Let_def success_toast_def replace_table_def issue_def)
  from a b show ?thesis by (intro exI [of _ ?t']) auto
qed

theorem deleteColumn_strips_witness:
  "activeTable example_app = Some example_table \<and>
   activeTable (handleColumnDelete (\<lambda>c. True) example_app ''2024-01-02T00:00:00.000Z'' ''col_1'' example_app)
     = Some (example_table\<lparr>columns := [\<lparr>col_id = ''col_2'', col_name = ''Active'', col_type = TBoolean,
                 col_options = None, col_required = Some False, col_width = Some 200\<rparr>],
               rows := [[''id'' \<mapsto> Str ''row_1'', ''col_2'' \<mapsto> Bool True],
                        [''id'' \<mapsto> Str ''row_2'', ''col_2'' \<mapsto> Bool False]]\<rparr>)"
proof -
  have a: "activeTable example_app = Some example_table" by (simp add: example_app_def)
  have k: "\<forall>c. (\<lambda>c. True) c" by simp
  have e: "activeTable (handleColumnDelete (\<lambda>c. True) example_app ''2024-01-02T00:00:00.000Z'' ''col_1'' example_app)
     = Some (example_table\<lparr>columns := [\<lparr>col_id = ''col_2'', col_name = ''Active'', col_type = TBoolean,
                 col_options = None, col_required = Some False, col_width = Some 200\<rparr>],
               rows := [[''id'' \<mapsto> Str ''row_1'', ''col_2'' \<mapsto> Bool True],
                        [''id'' \<mapsto> Str ''row_2'', ''col_2'' \<mapsto> Bool False]]\<rparr>)"
    by (auto simp: handleColumnDelete_def Let_def success_toast_def replace_table_def issue_def
        example_app_def example_table_def example_columns_def example_row1_def example_row2_def)
  from deleteColumn_strips [OF a k, of "''2024-01-02T00:00:00.000Z''" "''col_1''"] a e
  show ?thesis by simp
qed

section \<open>Adding and updating a row\<close>

lemma foldl_defaults_notin:
  "k \<notin> col_id ` set cs \<Longrightarrow> foldl (\<lambda>r col. r(col_id col \<mapsto> default_value col)) m cs k = m k"
  by (induction cs arbitrary: m) auto

lemma foldl_defaults_dom:
  "dom (foldl (\<lambda>r col. r(col_id col \<mapsto> default_value col)) m cs) = dom m \<union> col_id ` set cs"
  by (induction cs arbitrary: m) auto

lemma foldl_defaults_in:
  "distinct (map col_id cs) \<Longrightarrow> c \<in> set cs \<Longrightarrow>
   foldl (\<lambda>r col. r(col_id col \<mapsto> default_value col)) m cs (col_id c) = Some (default_value c)"
proof (induction cs arbitrary: m)
  case Nil
  then show ?case by simp
next
  case (Cons a cs)
  show ?case
  proof (cases "c = a")
    case True
    with Cons.prems have "col_id a \<notin> col_id ` set cs" by auto
    then have "foldl (\<lambda>r col. r(col_id col \<mapsto> default_value col))
                 (m(col_id a \<mapsto> default_value a)) cs (col_id a)
               = (m(col_id a \<mapsto> default_value a)) (col_id a)"
      by (rule foldl_defaults_notin)
    then show ?thesis unfolding True by (simp only: foldl_Cons fun_upd_same)
  next
    case False
    with Cons show ?thesis by auto
  qed
qed

text \<open>
  C4: for every active table whose column identifiers are distinct, with a user signed in
  and the remote write succeeding, adding a row appends one new row to the end of the row
  list; the keys of the new row are \<open>id\<close> and exactly the identifiers of the table's
  columns, and its value is \<open>false\<close> for every boolean column and the empty string for
  every other column.
\<close>

theorem addRow_defaults:
  assumes act: "activeTable s = Some t" and usr: "user s = Some u"
    and ok: "\<forall>c. remote c" and dist: "distinct (map col_id (columns t))"
  shows "\<exists>r t'. activeTable (handleRowAdd remote s now s) = Some t' \<and>
      tables (handleRowAdd remote s now s)
        = map (\<lambda>x. if tbl_id x = tbl_id t then t' else x) (tables s) \<and>
      rows t' = rows t @ [r] \<and> columns t' = columns t \<and>
      dom r = insert ''id'' (col_id ` set (columns t)) \<and>
      (\<forall>c\<in>set (columns t).
         r (col_id c) = Some (if col_type c = TBoolean then Bool False else Str [])) \<and>
      (''id'' \<notin> col_id ` set (columns t) \<longrightarrow> r ''id'' = Some (Str (''row_'' @ string_of_nat now)))"
proof -
  let ?r = "foldl (\<lambda>r col. r(col_id col \<mapsto> default_value col))
              [''id'' \<mapsto> Str (''row_'' @ string_of_nat now)] (columns t)"
  have a: "activeTable (handleRowAdd remote s now s) = Some (t\<lparr>rows := rows t @ [?r]\<rparr>)"
    using act usr ok
    by (simp add: handleRowAdd_def Let_def success_toast_def replace_table_def issue_def)
  have b: "tables (handleRowAdd remote s now s)
        = map (\<lambda>x. if tbl_id x = tbl_id t then t\<lparr>rows := rows t @ [?r]\<rparr> else x) (tables s)"
    using act usr ok
    by (simp add: handleRowAdd_def Let_def success_toast_def replace_table_def issue_def)
  have d: "dom ?r = insert ''id'' (col_id ` set (columns t))"
    by (simp add: foldl_defaults_dom)
  have v: "\<forall>c\<in>set (columns t).
         ?r (col_id c) = Some (if col_type c = TBoolean then Bool False else Str [])"
    using foldl_defaults_in [OF dist] by (simp add: default_value_def)
  have i: "''id'' \<notin> col_id ` set (columns t) \<longrightarrow> ?r ''id'' = Some (Str (''row_'' @ string_of_nat now))"
    by (simp add: foldl_defaults_notin)
  from a b d v i show ?thesis by (intro exI [of _ ?r] exI [of _ "t\<lparr>rows := rows t @ [?r]\<rparr>"]) simp
qed

theorem addRow_defaults_witness:
  "activeTable example_app = Some example_table \<and> user example_app = Some ''user_1'' \<and>
   distinct (map col_id (columns example_table)) \<and>
   activeTable (handleRowAdd (\<lambda>c. True) example_app 1700000000000 example_app)
     = Some (example_table\<lparr>rows := [example_row1, example_row2,
          [''id'' \<mapsto> Str ''row_1700000000000'', ''col_1'' \<mapsto> Str [], ''col_2'' \<mapsto> Bool False]]\<rparr>)"
proof -
  have a: "activeTable example_app = Some example_table" by (simp add: example_app_def)
  have u: "user example_app = Some ''user_1''" by (simp add: example_app_def)
  have k: "\<forall>c. (\<lambda>c. True) c" by simp
  have d: "distinct (map col_id (columns example_table))"
    by (simp add: example_table_def example_columns_def)
  have e: "activeTable (handleRowAdd (\<lambda>c. True) example_app 1700000000000 example_app)
     = Some (example_table\<lparr>rows := [example_row1, example_row2,
          [''id'' \<mapsto> Str ''row_1700000000000'', ''col_1'' \<mapsto> Str [], ''col_2'' \<mapsto> Bool False]]\<rparr>)"
    by (simp add: handleRowAdd_def Let_def success_toast_def replace_table_def issue_def
        default_value_def string_of_nat.simps example_app_def example_table_def example_columns_def)
  from addRow_defaults [OF a u k d, of 1700000000000] a u d e show ?thesis by simp
qed

text \<open>
  C2: for every active table, every row identifier present in it, every column identifier
  and every value, when the remote update of the row is rejected, the state after
  \<open>handleRowUpdate\<close> is the state before it, but for the failure notification, the line on
  the error console and the record of the call that was rejected: the tables, the active
  table and every row in them are unchanged. (For the key \<open>id\<close> the call is made when the
  value is the row identifier itself.)
\<close>

theorem updateRow_failure:
  assumes act: "activeTable s = Some t"
    and present: "\<exists>r\<in>set (rows t). strict_eq (get r ''id'') rowId"
    and key: "columnId = ''id'' \<longrightarrow> strict_eq v rowId"
    and rejects: "\<forall>d. \<not> remote (RowsUpdate rowId d)"
  shows "\<exists>d. handleRowUpdate remote s rowId columnId v s =
      s\<lparr>calls := calls s @ [RowsUpdate rowId d],
        console := console s @ [''Failed to update row:''],
        toasts := toasts s @
          [\<lparr>title = ''Error'', description = ''Failed to update row'', destructive = True\<rparr>]\<rparr>"
proof -
  let ?upd = "map (\<lambda>row. if strict_eq (get row ''id'') rowId then row(columnId \<mapsto> v) else row) (rows t)"
  from present obtain r where r: "r \<in> set (rows t)" "strict_eq (get r ''id'') rowId" by blast
  then have "r(columnId \<mapsto> v) \<in> set ?upd" by force
  moreover have "strict_eq (get (r(columnId \<mapsto> v)) ''id'') rowId"
    using r(2) key by (auto simp: get_def)
  ultimately have "find (\<lambda>r. strict_eq (get r ''id'') rowId) ?upd \<noteq> None"
    by (auto simp: find_None_iff)
  then obtain d where "find (\<lambda>r. strict_eq (get r ''id'') rowId) ?upd = Some d" by blast
  with act rejects show ?thesis
    by (auto simp: handleRowUpdate_def Let_def failed_def issue_def)
qed

theorem updateRow_failure_witness:
  "activeTable example_app = Some example_table \<and>
   example_row1 \<in> set (rows example_table) \<and>
   strict_eq (get example_row1 ''id'') (Str ''row_1'') \<and>
   tables (handleRowUpdate (\<lambda>c. False) example_app (Str ''row_1'') ''col_1'' (Num (Fin 10)) example_app)
     = [example_table] \<and>
   activeTable (handleRowUpdate (\<lambda>c. False) example_app (Str ''row_1'') ''col_1'' (Num (Fin 10)) example_app)
     = Some example_table \<and>
   toasts (handleRowUpdate (\<lambda>c. False) example_app (Str ''row_1'') ''col_1'' (Num (Fin 10)) example_app)
     = [\<lparr>title = ''Error'', description = ''Failed to update row'', destructive = True\<rparr>]"
proof -
  have a: "activeTable example_app = Some example_table" by (simp add: example_app_def)
  have m: "example_row1 \<in> set (rows example_table)" by (simp add: example_table_def)
  have e: "strict_eq (get example_row1 ''id'') (Str ''row_1'')"
    by (simp add: strict_eq_def get_def example_row1_def)
  from m e have p: "\<exists>r\<in>set (rows example_table). strict_eq (get r ''id'') (Str ''row_1'')" by blast
  have k: "''col_1'' = ''id'' \<longrightarrow> strict_eq (Num (Fin 10)) (Str ''row_1'')" by simp
  have r: "\<forall>d. \<not> (\<lambda>c. False) (RowsUpdate (Str ''row_1'') d)" by simp
  from updateRow_failure [OF a p k r]
  obtain d where "handleRowUpdate (\<lambda>c. False) example_app (Str ''row_1'') ''col_1'' (Num (Fin 10)) example_app
     = example_app\<lparr>calls := calls example_app @ [RowsUpdate (Str ''row_1'') d],
        console := console example_app @ [''Failed to update row:''],
        toasts := toasts example_app @
          [\<lparr>title = ''Error'', description = ''Failed to update row'', destructive = True\<rparr>]\<rparr>"
    by blast
  with a m e show ?thesis by (simp add: example_app_def)
qed

section \<open>Cells\<close>

text \<open>The values that are not truthy.\<close>

lemma falsy_values:
  "\<not> truthy v \<longleftrightarrow> v \<in> {Undefined, Null, Bool False, Num (Fin 0), Num NaN, Str []}"
  by (cases v rule: truthy.cases) auto

text \<open>
  C10: for every row and column, when the key of the column is missing from the row or
  holds a falsy value (undefined, null, \<open>false\<close>, 0, NaN or the empty string), the value
  that the grid hands to the cell editor and to the display is the empty string, and the
  display is the placeholder for an empty cell: in a boolean column \<open>false\<close> is not shown
  as an unchecked box, and in a number column 0 is not shown as a digit.
\<close>

theorem falsy_cell_is_empty:
  assumes "v \<in> {Undefined, Null, Bool False, Num (Fin 0), Num NaN, Str []}"
    and "row (col_id col) = None \<or> row (col_id col) = Some v"
  shows "\<not> truthy (get row (col_id col)) \<and>
     js_or (get row (col_id col)) (Str []) = Str [] \<and>
     CellDisplay col (js_or (get row (col_id col)) (Str [])) = Placeholder \<and>
     (case renderCell g row col of
        CellEditor c x \<Rightarrow> c = col \<and> x = Str []
      | Display d \<Rightarrow> d = Placeholder)"
proof -
  from assms have f: "\<not> truthy (get row (col_id col))"
    by (auto simp: get_def)
  then show ?thesis
    by (simp add: renderCell_def js_or_def CellDisplay_def Let_def split: option.splits)
qed

theorem falsy_cell_is_empty_witness:
  "Bool False \<in> {Undefined, Null, Bool False, Num (Fin 0), Num NaN, Str []} \<and>
   example_row2 ''col_2'' = Some (Bool False) \<and>
   renderCell example_grid example_row2
     \<lparr>col_id = ''col_2'', col_name = ''Active'', col_type = TBoolean, col_options = None,
       col_required = Some False, col_width = Some 200\<rparr> = Display Placeholder \<and>
   renderCell (handleCellClick (Str ''row_2'') ''col_2'' example_grid) example_row2
     \<lparr>col_id = ''col_2'', col_name = ''Active'', col_type = TBoolean, col_options = None,
       col_required = Some False, col_width = Some 200\<rparr>
     = CellEditor \<lparr>col_id = ''col_2'', col_name = ''Active'', col_type = TBoolean, col_options = None,
       col_required = Some False, col_width = Some 200\<rparr> (Str []) \<and>
   renderCell example_grid [''id'' \<mapsto> Str ''row_3'', ''col_3'' \<mapsto> Num (Fin 0)]
     \<lparr>col_id = ''col_3'', col_name = ''Count'', col_type = TNumber, col_options = None,
       col_required = Some False, col_width = Some 200\<rparr> = Display Placeholder \<and>
   renderCell example_grid example_row1
     \<lparr>col_id = ''col_3'', col_name = ''Count'', col_type = TNumber, col_options = None,
       col_required = Some False, col_width = Some 200\<rparr> = Display Placeholder"
proof -
  let ?n = "\<lparr>col_id = ''col_3'', col_name = ''Count'', col_type = TNumber, col_options = None,
       col_required = Some False, col_width = Some 200\<rparr>"
  let ?r3 = "[''id'' \<mapsto> Str ''row_3'', ''col_3'' \<mapsto> Num (Fin 0)]"
  have z: "Num (Fin 0) \<in> {Undefined, Null, Bool False, Num (Fin 0), Num NaN, Str []}" by simp
  have z': "?r3 (col_id ?n) = None \<or> ?r3 (col_id ?n) = Some (Num (Fin 0))" by simp
  have e3: "\<exists>d. renderCell example_grid ?r3 ?n = Display d"
    by (simp add: renderCell_def example_grid_def initial_grid_def Let_def)
  have u: "Undefined \<in> {Undefined, Null, Bool False, Num (Fin 0), Num NaN, Str []}" by simp
  have u': "example_row1 (col_id ?n) = None \<or> example_row1 (col_id ?n) = Some Undefined"
    by (simp add: example_row1_def)
  have e4: "\<exists>d. renderCell example_grid example_row1 ?n = Display d"
    by (simp add: renderCell_def example_grid_def initial_grid_def Let_def)
  let ?c = "\<lparr>col_id = ''col_2'', col_name = ''Active'', col_type = TBoolean, col_options = None,
       col_required = Some False, col_width = Some 200\<rparr>"
  have m: "Bool False \<in> {Undefined, Null, Bool False, Num (Fin 0), Num NaN, Str []}" by simp
  have r: "example_row2 ''col_2'' = Some (Bool False)" by (simp add: example_row2_def)
  then have r': "example_row2 (col_id ?c) = None \<or> example_row2 (col_id ?c) = Some (Bool False)"
    by simp
  have e1: "\<exists>d. renderCell example_grid example_row2 ?c = Display d"
    by (simp add: renderCell_def example_grid_def initial_grid_def Let_def)
  have e2: "\<exists>c x. renderCell (handleCellClick (Str ''row_2'') ''col_2'' example_grid) example_row2 ?c
      = CellEditor c x"
    by (simp add: renderCell_def handleCellClick_def strict_eq_def get_def example_row2_def Let_def)
  from falsy_cell_is_empty [of "Bool False" example_row2 ?c example_grid, OF m r']
    falsy_cell_is_empty [of "Bool False" example_row2 ?c
      "handleCellClick (Str ''row_2'') ''col_2'' example_grid", OF m r']
    falsy_cell_is_empty [of "Num (Fin 0)" ?r3 ?n example_grid, OF z z']
    falsy_cell_is_empty [of Undefined example_row1 ?n example_grid, OF u u']
    e1 e2 e3 e4 m r
  show ?thesis by auto
qed

section \<open>Selection and deletion\<close>

text \<open>
  The bulk delete makes one remote delete call for each selected identifier, in the order
  of the selection, and leaves the selection empty.
\<close>

lemma handleRowDelete_calls:
  "activeTable cl = Some t \<Longrightarrow> calls (handleRowDelete remote cl rowId s) = calls s @ [RowsDelete rowId]"
  by (simp add: handleRowDelete_def Let_def success_toast_def replace_table_def issue_def failed_def)

lemma foldl_handleRowDelete_calls:
  "activeTable cl = Some t \<Longrightarrow>
   calls (foldl (\<lambda>s' rowId. handleRowDelete remote cl rowId s') s ids) = calls s @ map RowsDelete ids"
  by (induction ids arbitrary: s) (simp_all add: handleRowDelete_calls)

lemma bulk_delete_calls:
  "activeTable s = Some t \<Longrightarrow>
   calls (snd (bulk_delete_click remote (g, s))) = calls s @ map RowsDelete (selectedRows g) \<and>
   selectedRows (fst (bulk_delete_click remote (g, s))) = []"
  by (simp add: bulk_delete_click_def foldl_handleRowDelete_calls)

text \<open>
  C6: deleting a single row should remove its identifier from the selection. The delete
  button of a row calls the application's handler and does nothing to the selection: in
  the example grid, where the first row is selected, deleting that row removes it from
  the table and leaves its identifier selected. The header checkbox then shows every row
  as selected, although the one row that is left is not.
\<close>

theorem row_delete_keeps_selection:
  "selectedRows (fst (row_delete_click (\<lambda>c. True) example_row1 (example_grid, example_app)))
     = [Str ''row_1''] \<and>
   activeTable (snd (row_delete_click (\<lambda>c. True) example_row1 (example_grid, example_app)))
     = Some (example_table\<lparr>rows := [example_row2]\<rparr>) \<and>
   select_all_checked (fst (row_delete_click (\<lambda>c. True) example_row1 (example_grid, example_app)))
     [example_row2] \<and>
   get example_row2 ''id'' \<notin>
     set (selectedRows (fst (row_delete_click (\<lambda>c. True) example_row1 (example_grid, example_app))))"
  by (simp add: row_delete_click_def handleRowDelete_def Let_def success_toast_def
      replace_table_def issue_def select_all_checked_def strict_eq_def get_def example_columns_def
      example_row1_def example_row2_def example_table_def example_app_def example_grid_def
      initial_grid_def)

end
